theory Spec2Isabelle
  imports Main "HOL-Library.Sublist"
begin

section \<open>Values shared by the server's source files\<close>

text \<open>
  The repository is a small Go HTTP server (package \<open>main\<close>) in three revisions:
  \<^item> \<open>src/unnamed/part_001\<close>: \<open>main.go\<close> without tracing;
  \<^item> \<open>src/cmd/server/tracer.go\<close>: \<open>newTracer\<close> with the gRPC exporter;
  \<^item> \<open>src/unnamed/part_000\<close>: \<open>newTracer\<close> with the HTTP exporter, and \<open>main.go\<close>
    with tracing and the cleanup of the tracer.
  Definitions taken from \<open>part_001\<close> carry the suffix \<open>_001\<close>, and \<open>newTracer\<close> of
  \<open>part_000\<close> the suffix \<open>_000\<close>; every other definition is named as in the source.
  Time is counted in nanoseconds, as Go's \<open>time.Duration\<close> does.
\<close>

datatype error = DeadlineExceeded | Canceled | ErrServerClosed | OtherError string

definition Second :: nat where
  "Second = 1000000000"

definition shutdownPeriod :: nat where
  "shutdownPeriod = 15 * Second"

definition shutdownHardPeriod :: nat where
  "shutdownHardPeriod = 3 * Second"

definition readinessDrainDelay :: nat where
  "readinessDrainDelay = 5 * Second"

definition StatusOK :: nat where
  "StatusOK = 200"

definition StatusServiceUnavailable :: nat where
  "StatusServiceUnavailable = 503"

section \<open>The readiness handler\<close>

text \<open>
  \<open>ReadinessHandler\<close> holds a pointer to an \<open>atomic.Bool\<close> and, in \<open>part_000\<close>, a tracer.
  The cell is the record field \<open>available\<close>; \<open>Load\<close> reads it and \<open>Store\<close> writes it, one
  at a time (Go's atomics are sequentially consistent), so concurrent callers are
  modelled by the order in which their atomic operations take effect.
\<close>

datatype Tracer = Tracer string

datatype KeyValue =
    ServiceName string
  | ServiceVersion string
  | DeploymentEnvironmentName string
  | UserAgentName string

record ReadinessHandler =
  available :: bool
  trace :: Tracer

record ReadinessHandler_001 =
  available_001 :: bool

definition NewReadinessHandler :: "Tracer \<Rightarrow> ReadinessHandler" where
  "NewReadinessHandler tr = \<lparr>available = True, trace = tr\<rparr>"

definition NewReadinessHandler_001 :: "ReadinessHandler_001" where
  "NewReadinessHandler_001 = \<lparr>available_001 = True\<rparr>"

definition MakeUnavailable :: "ReadinessHandler \<Rightarrow> ReadinessHandler" where
  "MakeUnavailable r = r\<lparr>available := False\<rparr>"

definition MakeUnavailable_001 :: "ReadinessHandler_001 \<Rightarrow> ReadinessHandler_001" where
  "MakeUnavailable_001 r = r\<lparr>available_001 := False\<rparr>"

text \<open>
  \<open>http.Error(w, text, code)\<close> belongs to Go's standard library: it sends the status
  \<open>code\<close> and writes \<open>text\<close> as the plain-text body of the reply (the library ends the text
  with a line break). A reply is recorded as the code and the text the handler hands over.
\<close>

record reply =
  code :: nat
  body_text :: string

definition http_Error :: "string \<Rightarrow> nat \<Rightarrow> reply" where
  "http_Error txt c = \<lparr>code = c, body_text = txt\<rparr>"

record request =
  user_agent :: string

text \<open>The span a request of \<open>part_000\<close> opens: its tracer, name, attributes, events, and
  whether the deferred \<open>span.End()\<close> has run.\<close>

record span =
  span_tracer :: Tracer
  span_name :: string
  span_attrs :: "KeyValue list"
  span_events :: "string list"
  span_ended :: bool

definition trace_Start :: "Tracer \<Rightarrow> string \<Rightarrow> KeyValue list \<Rightarrow> span" where
  "trace_Start tr n as =
     \<lparr>span_tracer = tr, span_name = n, span_attrs = as, span_events = [], span_ended = False\<rparr>"

definition AddEvent :: "string \<Rightarrow> span \<Rightarrow> span" where
  "AddEvent e sp = sp\<lparr>span_events := span_events sp @ [e]\<rparr>"

definition End :: "span \<Rightarrow> span" where
  "End sp = sp\<lparr>span_ended := True\<rparr>"

definition ServeHTTP :: "ReadinessHandler \<Rightarrow> request \<Rightarrow> reply \<times> span" where
  "ServeHTTP r req =
     (let ua = user_agent req;
          sp = trace_Start (trace r) ''healthcheck'' [UserAgentName ua]
      in (case available r of
            True \<Rightarrow> (http_Error ''OK'' StatusOK, End (AddEvent ''healthy'' sp))
          | False \<Rightarrow>
              (http_Error ''Shutting down'' StatusServiceUnavailable,
               End (AddEvent ''unhealthy'' sp))))"

definition ServeHTTP_001 :: "ReadinessHandler_001 \<Rightarrow> request \<Rightarrow> reply" where
  "ServeHTTP_001 r req =
     (case available_001 r of
        True \<Rightarrow> http_Error ''OK'' StatusOK
      | False \<Rightarrow> http_Error ''Shutting down'' StatusServiceUnavailable)"

text \<open>
  The operations that reach the shared flag, in the order in which they take effect:
  a probe's \<open>Load\<close> and the orchestrator's \<open>MakeUnavailable\<close>.
\<close>

datatype rh_op = OpLoad | OpMakeUnavailable

fun rh_run :: "rh_op list \<Rightarrow> ReadinessHandler \<Rightarrow> ReadinessHandler \<times> bool list" where
  "rh_run [] r = (r, [])"
| "rh_run (OpLoad # ops) r = (let (r', bs) = rh_run ops r in (r', available r # bs))"
| "rh_run (OpMakeUnavailable # ops) r = rh_run ops (MakeUnavailable r)"

fun rh_run_001 :: "rh_op list \<Rightarrow> ReadinessHandler_001 \<Rightarrow> ReadinessHandler_001 \<times> bool list" where
  "rh_run_001 [] r = (r, [])"
| "rh_run_001 (OpLoad # ops) r =
     (let (r', bs) = rh_run_001 ops r in (r', available_001 r # bs))"
| "rh_run_001 (OpMakeUnavailable # ops) r = rh_run_001 ops (MakeUnavailable_001 r)"

section \<open>The tracer\<close>

text \<open>
  \<open>resource.New\<close> and the exporter's \<open>New\<close> are library calls that return Go's pair of a
  value and an error; they are parameters of the model. The pair is kept as it is: the
  value may be \<open>nil\<close> (\<open>None\<close>) and the error may be \<open>nil\<close> (\<open>None\<close>). A panic is the left
  summand of the result. On success \<open>newTracer\<close> registers the provider globally and
  returns its \<open>Shutdown\<close> method, so the result is the provider.
\<close>

datatype Sampler = AlwaysSample | NeverSample

record ('e, 'r) TracerProvider =
  batcher :: "'e option"
  resource :: "'r option"
  sampler :: Sampler

text \<open>The package variables \<open>Version\<close> and \<open>Commit\<close>, set when the program is linked.\<close>

record build =
  Version :: string
  Commit :: string

text \<open>The attributes of lines 19 to 23; \<open>fmt.Sprintf("%s@%s", x, y)\<close> on strings is \<open>x\<close>, an
  at sign, \<open>y\<close>.\<close>

definition newTracer_attrs :: "build \<Rightarrow> KeyValue list" where
  "newTracer_attrs b =
     (let version = Commit b @ ''@'' @ Version b
      in [ServiceName ''server'', ServiceVersion version, DeploymentEnvironmentName ''dev''])"

text \<open>\<open>src/cmd/server/tracer.go\<close>: the error of the exporter is assigned and not read.\<close>

definition newTracer ::
  "build \<Rightarrow> (KeyValue list \<Rightarrow> 'r option \<times> error option) \<Rightarrow>
   ('e option \<times> error option) \<Rightarrow> error + ('e, 'r) TracerProvider" where
  "newTracer b resource_New exporter_New =
     (let (res, err) = resource_New (newTracer_attrs b)
      in case err of
           Some e \<Rightarrow> Inl e
         | None \<Rightarrow>
             (let (exporter, err) = exporter_New
              in Inr \<lparr>batcher = exporter, resource = res, sampler = NeverSample\<rparr>))"

text \<open>\<open>src/unnamed/part_000\<close>: both errors are checked.\<close>

definition newTracer_000 ::
  "build \<Rightarrow> (KeyValue list \<Rightarrow> 'r option \<times> error option) \<Rightarrow>
   ('e option \<times> error option) \<Rightarrow> error + ('e, 'r) TracerProvider" where
  "newTracer_000 b resource_New exporter_New =
     (let (res, err) = resource_New (newTracer_attrs b)
      in case err of
           Some e \<Rightarrow> Inl e
         | None \<Rightarrow>
             (let (exporter, err) = exporter_New
              in case err of
                   Some e \<Rightarrow> Inl e
                 | None \<Rightarrow>
                     Inr \<lparr>batcher = exporter, resource = res, sampler = AlwaysSample\<rparr>))"

fun service_version :: "KeyValue list \<Rightarrow> string option" where
  "service_version [] = None"
| "service_version (ServiceVersion v # kvs) = Some v"
| "service_version (kv # kvs) = service_version kvs"

section \<open>The shutdown sequence of main\<close>

text \<open>
  \<open>main\<close> of \<open>part_000\<close> from line 166 on, one transition per statement. The state holds
  what the statements read and write; \<open>effects\<close> is the list of the calls made so far,
  each with the time of its invocation. The main goroutine runs the statements one after
  the other and every call blocks until it returns, so a call listed earlier has returned
  before a later one is invoked.

  Only the blocking calls advance the clock: \<open>time.Sleep\<close> by its argument,
  \<open>s.Shutdown\<close> and the tracer's \<open>Shutdown\<close> by what the environment says they take.
  The statements of \<open>main\<close> in \<open>part_001\<close> are those of lines 166 to 186 here, with no tracer
  and no cleanup. The goroutine that runs \<open>ListenAndServe\<close> takes no part in the sequence:
  it ends when \<open>Shutdown\<close> closes the listener, and panics only on another error of the
  listener.
  The environment also fixes what the two library calls return: \<open>sd_err\<close> and
  \<open>sd_elapsed\<close> for \<open>s.Shutdown(shutdownCtx)\<close>, \<open>flush_err\<close> and \<open>flush_elapsed\<close> for the
  tracer's \<open>Shutdown(ctx)\<close>, given the context and the time of the call.
\<close>

text \<open>The contexts of \<open>main\<close>: \<open>rootCtx\<close> (cancelled by a signal), \<open>ongoingCtx\<close> (cancelled by
  \<open>stopOngoingGracefully\<close>) and \<open>shutdownCtx\<close> with the time of its deadline. A context made by
  \<open>context.WithTimeout\<close> is done once its deadline is reached, and \<open>remaining\<close> is what is
  left until then.\<close>

datatype ctx = SignalCtx | CancelCtx | TimeoutCtx nat

fun expired :: "ctx \<Rightarrow> nat \<Rightarrow> bool" where
  "expired (TimeoutCtx d) now = (d \<le> now)"
| "expired c now = False"

fun remaining :: "ctx \<Rightarrow> nat \<Rightarrow> nat" where
  "remaining (TimeoutCtx d) now = d - now"
| "remaining c now = 0"

datatype level = LevelInfo | LevelError

datatype effect =
    NotifyStop
  | Unalive
  | Slog level string
  | Sleep nat
  | WithTimeout nat
  | ServerShutdown ctx
  | StopOngoing
  | is_CleanupTracer: CleanupTracer ctx
  | CancelTimeout

datatype label =
    L166 | L167 | L168 | L170 | L172 | L174 | L176 | L179 | L180 | L181 | L182 | L183
  | L186 | L188 | L189 | L212 | L213 | L177 | L151 | LExit

datatype status = Running | Returned | Killed

record env =
  sd_err :: "error option"
  sd_elapsed :: nat
  flush_err :: "ctx \<Rightarrow> nat \<Rightarrow> error option"
  flush_elapsed :: "ctx \<Rightarrow> nat \<Rightarrow> nat"

record proc =
  clock :: nat
  pc :: label
  status :: status
  notify :: bool
  root_done :: bool
  ongoing_done :: bool
  rh :: ReadinessHandler
  shutdownCtx :: "ctx option"
  shutdown_cancelled :: bool
  err :: "error option"
  cleanup_err :: "error option"
  effects :: "(nat \<times> effect) list"

definition emit :: "effect \<Rightarrow> proc \<Rightarrow> proc" where
  "emit e s = s\<lparr>effects := effects s @ [(clock s, e)]\<rparr>"

definition goto :: "label \<Rightarrow> proc \<Rightarrow> proc" where
  "goto l s = s\<lparr>pc := l\<rparr>"

definition elapse :: "nat \<Rightarrow> proc \<Rightarrow> proc" where
  "elapse d s = s\<lparr>clock := clock s + d\<rparr>"

text \<open>
  The statement at each label (the number is the line in \<open>part_000\<close>; \<open>L212\<close> and
  \<open>L213\<close> are the body of the \<open>cleanup\<close> closure that \<open>NewRoutes\<close> returns, \<open>L177\<close> and
  \<open>L151\<close> the deferred \<open>cancel()\<close> and \<open>stop()\<close>, which run in reverse order of their
  \<open>defer\<close> statements when \<open>main\<close> returns).
\<close>

fun exec_line :: "env \<Rightarrow> label \<Rightarrow> proc \<Rightarrow> proc" where
  "exec_line ev L166 s = (if root_done s then goto L167 s else s)"
| "exec_line ev L167 s = goto L168 (emit NotifyStop (s\<lparr>notify := False, root_done := True\<rparr>))"
| "exec_line ev L168 s = goto L170 (emit Unalive (s\<lparr>rh := MakeUnavailable (rh s)\<rparr>))"
| "exec_line ev L170 s = goto L172 (emit (Slog LevelInfo ''Received signal. Shutting down.'') s)"
| "exec_line ev L172 s = goto L174 (elapse readinessDrainDelay (emit (Sleep readinessDrainDelay) s))"
| "exec_line ev L174 s =
     goto L176 (emit (Slog LevelInfo
       ''Readiness check propagated, now waiting for ongoing requests to finish.'') s)"
| "exec_line ev L176 s =
     goto L179 (emit (WithTimeout shutdownPeriod)
       (s\<lparr>shutdownCtx := Some (TimeoutCtx (clock s + shutdownPeriod))\<rparr>))"
| "exec_line ev L179 s =
     (case shutdownCtx s of
        None \<Rightarrow> s
      | Some c \<Rightarrow> goto L180 (elapse (sd_elapsed ev) (emit (ServerShutdown c) s)\<lparr>err := sd_err ev\<rparr>))"
| "exec_line ev L180 s = goto L181 (emit StopOngoing (s\<lparr>ongoing_done := True\<rparr>))"
| "exec_line ev L181 s = (if err s \<noteq> None then goto L182 s else goto L186 s)"
| "exec_line ev L182 s =
     goto L183 (emit (Slog LevelError
       ''Failed to wait for ongoing requests to finish, waiting for forced cancellation.'') s)"
| "exec_line ev L183 s = goto L186 (elapse shutdownHardPeriod (emit (Sleep shutdownHardPeriod) s))"
| "exec_line ev L186 s = goto L188 (emit (Slog LevelInfo ''Server shut down gracefully'') s)"
| "exec_line ev L188 s = goto L189 (emit (Slog LevelInfo ''Cleaning up dependencies...'') s)"
| "exec_line ev L189 s = goto L212 s"
| "exec_line ev L212 s =
     (case shutdownCtx s of
        None \<Rightarrow> s
      | Some c \<Rightarrow>
          goto L213 (elapse (flush_elapsed ev c (clock s)) (emit (CleanupTracer c) s)
            \<lparr>cleanup_err := flush_err ev c (clock s)\<rparr>))"
| "exec_line ev L213 s =
     (let status = (if cleanup_err s \<noteq> None then '' failed'' else '' succeeded'')
      in goto L177 (emit (Slog LevelError (''cleanup tracer'' @ status)) s))"
| "exec_line ev L177 s = goto L151 (emit CancelTimeout (s\<lparr>shutdown_cancelled := True\<rparr>))"
| "exec_line ev L151 s = goto LExit (emit NotifyStop (s\<lparr>notify := False, root_done := True\<rparr>))"
| "exec_line ev LExit s = s\<lparr>status := Returned\<rparr>"

definition step :: "env \<Rightarrow> proc \<Rightarrow> proc" where
  "step ev s = (if status s = Running then exec_line ev (pc s) s else s)"

text \<open>
  \<open>signal.NotifyContext\<close> (line 150) registers SIGINT and SIGTERM. While the registration
  stands, a signal cancels \<open>rootCtx\<close>, and a later one finds it cancelled. \<open>stop()\<close> removes
  the registration, which gives the two signals their default disposition back: the Go
  runtime then ends the process when one arrives.
\<close>

definition signal :: "proc \<Rightarrow> proc" where
  "signal s =
     (if status s \<noteq> Running then s
      else if notify s then s\<lparr>root_done := True\<rparr>
      else s\<lparr>status := Killed\<rparr>)"

datatype input = Signal | Step

fun react :: "env \<Rightarrow> input \<Rightarrow> proc \<Rightarrow> proc" where
  "react ev Signal s = signal s"
| "react ev Step s = step ev s"

definition run :: "env \<Rightarrow> input list \<Rightarrow> proc \<Rightarrow> proc" where
  "run ev ins s = fold (react ev) ins s"

text \<open>The process blocked at line 166 at time \<open>t0\<close>, with \<open>NewRoutes\<close> and \<open>NewServer\<close> done.\<close>

definition boot :: "nat \<Rightarrow> proc" where
  "boot t0 =
     \<lparr>clock = t0, pc = L166, status = Running, notify = True, root_done = False,
      ongoing_done = False, rh = NewReadinessHandler (Tracer ''http.handler.readiness''),
      shutdownCtx = None, shutdown_cancelled = False, err = None, cleanup_err = None,
      effects = []\<rparr>"

text \<open>One signal at time \<open>t0\<close>, and then \<open>main\<close> left to run: twenty steps reach the end on
  either path.\<close>

definition shutdown_sequence :: "env \<Rightarrow> nat \<Rightarrow> proc" where
  "shutdown_sequence ev t0 = run ev (Signal # replicate 20 Step) (boot t0)"

definition calls :: "proc \<Rightarrow> effect list" where
  "calls s = map snd (effects s)"

fun pos :: "'a \<Rightarrow> 'a list \<Rightarrow> nat option" where
  "pos a [] = None"
| "pos a (x # xs) = (if x = a then Some 0 else map_option Suc (pos a xs))"

definition precedes :: "'a \<Rightarrow> 'a \<Rightarrow> 'a list \<Rightarrow> bool" where
  "precedes a b xs =
     (case (pos a xs, pos b xs) of (Some i, Some j) \<Rightarrow> i < j | _ \<Rightarrow> False)"

fun invoked_at :: "effect \<Rightarrow> (nat \<times> effect) list \<Rightarrow> nat option" where
  "invoked_at e [] = None"
| "invoked_at e ((t, x) # xs) = (if x = e then Some t else invoked_at e xs)"

text \<open>Two environments: a transport that drains in one second, and one whose handlers never
  finish, so that \<open>Shutdown\<close> returns the context's error when the deadline is reached.\<close>

definition env_fast :: env where
  "env_fast =
     \<lparr>sd_err = None, sd_elapsed = Second,
      flush_err = (\<lambda>c now. None), flush_elapsed = (\<lambda>c now. 0)\<rparr>"

definition env_stuck :: env where
  "env_stuck =
     \<lparr>sd_err = Some DeadlineExceeded, sd_elapsed = shutdownPeriod,
      flush_err = (\<lambda>c now. if expired c now then Some DeadlineExceeded else None),
      flush_elapsed = (\<lambda>c now. 0)\<rparr>"

section \<open>The readiness flag and the health handler\<close>

lemma MakeUnavailable_twice: "MakeUnavailable (MakeUnavailable r) = MakeUnavailable r"
  by (simp add: MakeUnavailable_def)

lemma MakeUnavailable_twice_001:
  "MakeUnavailable_001 (MakeUnavailable_001 r) = MakeUnavailable_001 r"
  by (simp add: MakeUnavailable_001_def)

lemma available_MakeUnavailable: "available (MakeUnavailable r) = False"
  by (simp add: MakeUnavailable_def)

lemma available_MakeUnavailable_001: "available_001 (MakeUnavailable_001 r) = False"
  by (simp add: MakeUnavailable_001_def)

lemma rh_run_unavailable:
  "rh_run ops (MakeUnavailable r) = (MakeUnavailable r, replicate (count_list ops OpLoad) False)"
proof (induction ops)
  case Nil
  show ?case by simp
next
  case (Cons x ops)
  show ?case
    by (cases x)
      (simp_all add: Cons.IH MakeUnavailable_twice available_MakeUnavailable)
qed

lemma rh_run_append:
  "rh_run (pre @ post) r =
     (fst (rh_run post (fst (rh_run pre r))), snd (rh_run pre r) @ snd (rh_run post (fst (rh_run pre r))))"
proof (induction pre arbitrary: r)
  case Nil
  show ?case by simp
next
  case (Cons x pre)
  show ?case
    by (cases x) (simp_all add: Cons.IH split_beta)
qed

lemma rh_run_unavailable_001:
  "rh_run_001 ops (MakeUnavailable_001 r) =
     (MakeUnavailable_001 r, replicate (count_list ops OpLoad) False)"
proof (induction ops)
  case Nil
  show ?case by simp
next
  case (Cons x ops)
  show ?case
    by (cases x)
      (simp_all add: Cons.IH MakeUnavailable_twice_001 available_MakeUnavailable_001)
qed

lemma rh_run_append_001:
  "rh_run_001 (pre @ post) r =
     (fst (rh_run_001 post (fst (rh_run_001 pre r))),
      snd (rh_run_001 pre r) @ snd (rh_run_001 post (fst (rh_run_001 pre r))))"
proof (induction pre arbitrary: r)
  case Nil
  show ?case by simp
next
  case (Cons x pre)
  show ?case
    by (cases x) (simp_all add: Cons.IH split_beta)
qed

lemma rh_run_state:
  "fst (rh_run ops r) = (if OpMakeUnavailable \<in> set ops then MakeUnavailable r else r)"
proof (induction ops arbitrary: r)
  case Nil
  show ?case by simp
next
  case (Cons x ops)
  show ?case
    by (cases x) (simp_all add: Cons.IH split_beta MakeUnavailable_twice)
qed

lemma rh_run_state_001:
  "fst (rh_run_001 ops r) = (if OpMakeUnavailable \<in> set ops then MakeUnavailable_001 r else r)"
proof (induction ops arbitrary: r)
  case Nil
  show ?case by simp
next
  case (Cons x ops)
  show ?case
    by (cases x) (simp_all add: Cons.IH split_beta MakeUnavailable_twice_001)
qed

text \<open>
  Claim C3. The flag is true at construction. After \<open>MakeUnavailable\<close> it is false, and a
  second call changes nothing. For any operations \<open>pre\<close> before a call of
  \<open>MakeUnavailable\<close> and any operations \<open>post\<close> after it (further calls and reads, in any
  order), the flag ends as after one call, and every read in \<open>post\<close> returns false.
  The same holds for the handler of \<open>part_001\<close>.
\<close>

theorem readiness_monotonic:
  "available (NewReadinessHandler tr) \<and>
   \<not> available (MakeUnavailable r) \<and>
   MakeUnavailable (MakeUnavailable r) = MakeUnavailable r \<and>
   fst (rh_run (pre @ OpMakeUnavailable # post) r) = MakeUnavailable r \<and>
   snd (rh_run (pre @ OpMakeUnavailable # post) r) =
     snd (rh_run pre r) @ replicate (count_list post OpLoad) False \<and>
   available_001 NewReadinessHandler_001 \<and>
   \<not> available_001 (MakeUnavailable_001 q) \<and>
   MakeUnavailable_001 (MakeUnavailable_001 q) = MakeUnavailable_001 q \<and>
   fst (rh_run_001 (pre @ OpMakeUnavailable # post) q) = MakeUnavailable_001 q \<and>
   snd (rh_run_001 (pre @ OpMakeUnavailable # post) q) =
     snd (rh_run_001 pre q) @ replicate (count_list post OpLoad) False"
proof -
  have a: "fst (rh_run (pre @ OpMakeUnavailable # post) r) = MakeUnavailable r"
    by (simp add: rh_run_state)
  have b: "snd (rh_run (pre @ OpMakeUnavailable # post) r) =
     snd (rh_run pre r) @ replicate (count_list post OpLoad) False"
    by (simp add: rh_run_append rh_run_unavailable)
  have c: "fst (rh_run_001 (pre @ OpMakeUnavailable # post) q) = MakeUnavailable_001 q"
    by (simp add: rh_run_state_001)
  have d: "snd (rh_run_001 (pre @ OpMakeUnavailable # post) q) =
     snd (rh_run_001 pre q) @ replicate (count_list post OpLoad) False"
    by (simp add: rh_run_append_001 rh_run_unavailable_001)
  show ?thesis
    unfolding a b c d
    by (simp add: NewReadinessHandler_def NewReadinessHandler_001_def MakeUnavailable_def
        MakeUnavailable_001_def)
qed

text \<open>
  Claim C4. The handler answers with status code 200 and the text \<open>OK\<close> while the flag is
  true, and with status code 503 and the text \<open>Shutting down\<close> while it is false; the reply
  is a function of the flag alone, so a fresh handler answers 200 and one made unavailable
  answers 503 to every request. The same holds for the handler of \<open>part_001\<close>.
\<close>

theorem health_reply:
  "fst (ServeHTTP r req) =
     (if available r then \<lparr>code = 200, body_text = ''OK''\<rparr>
      else \<lparr>code = 503, body_text = ''Shutting down''\<rparr>) \<and>
   ServeHTTP_001 q req =
     (if available_001 q then \<lparr>code = 200, body_text = ''OK''\<rparr>
      else \<lparr>code = 503, body_text = ''Shutting down''\<rparr>) \<and>
   fst (ServeHTTP (NewReadinessHandler tr) req) = \<lparr>code = 200, body_text = ''OK''\<rparr> \<and>
   fst (ServeHTTP (MakeUnavailable r) req) = \<lparr>code = 503, body_text = ''Shutting down''\<rparr> \<and>
   ServeHTTP_001 NewReadinessHandler_001 req = \<lparr>code = 200, body_text = ''OK''\<rparr> \<and>
   ServeHTTP_001 (MakeUnavailable_001 q) req = \<lparr>code = 503, body_text = ''Shutting down''\<rparr>"
  by (simp add: ServeHTTP_def ServeHTTP_001_def http_Error_def StatusOK_def
      StatusServiceUnavailable_def NewReadinessHandler_def NewReadinessHandler_001_def
      MakeUnavailable_def MakeUnavailable_001_def Let_def)

section \<open>The tracer\<close>

text \<open>
  Claim C5 says that a failure of the exporter's construction makes the process panic.
  In \<open>src/cmd/server/tracer.go\<close> it does not: with a resource that was built and an
  exporter whose constructor returned \<open>nil\<close> and an error, \<open>newTracer\<close> returns a provider
  whose batcher holds the \<open>nil\<close> exporter.
\<close>

theorem newTracer_exporter_error_ignored:
  "newTracer b (\<lambda>as. (Some res, None)) (None, Some e) =
     Inr \<lparr>batcher = None, resource = Some res, sampler = NeverSample\<rparr>"
  by (simp add: newTracer_def)

text \<open>
  A failed resource does make both revisions panic, and \<open>part_000\<close> panics on a failed
  exporter as well.
\<close>

lemma newTracer_resource_error_panics:
  "newTracer b (\<lambda>as. (res, Some e)) ex = Inl e"
  by (simp add: newTracer_def split: prod.splits)

lemma newTracer_000_panics:
  "newTracer_000 b (\<lambda>as. (res, Some e)) ex = Inl e \<and>
   newTracer_000 b (\<lambda>as. (res, None)) (x, Some e) = Inl e"
  by (simp add: newTracer_000_def split: prod.splits)

text \<open>
  Claim C9 says the service version is the version, an at sign, the commit. With version
  \<open>v1.2.3\<close> and commit \<open>abc1234\<close> the attribute is \<open>abc1234@v1.2.3\<close>, which is not
  \<open>v1.2.3@abc1234\<close>.
\<close>

theorem service_version_counterexample:
  "service_version (newTracer_attrs \<lparr>Version = ''v1.2.3'', Commit = ''abc1234''\<rparr>) =
     Some ''abc1234@v1.2.3'' \<and>
   service_version (newTracer_attrs \<lparr>Version = ''v1.2.3'', Commit = ''abc1234''\<rparr>) \<noteq>
     Some (''v1.2.3'' @ ''@'' @ ''abc1234'')"
  by (simp add: newTracer_attrs_def)

text \<open>
  Claim C9, amended. The service version attribute is the commit identifier, an at sign,
  the version identifier; with a \<open>resource.New\<close> that keeps the attributes it is given, both
  revisions of \<open>newTracer\<close> return a provider whose resource carries it.
\<close>

theorem service_version_commit_first:
  "service_version (newTracer_attrs b) = Some (Commit b @ ''@'' @ Version b) \<and>
   newTracer b (\<lambda>as. (Some as, None)) (x, None) =
     Inr \<lparr>batcher = x,
          resource = Some [ServiceName ''server'', ServiceVersion (Commit b @ ''@'' @ Version b),
                           DeploymentEnvironmentName ''dev''],
          sampler = NeverSample\<rparr> \<and>
   newTracer_000 b (\<lambda>as. (Some as, None)) (x, None) =
     Inr \<lparr>batcher = x,
          resource = Some [ServiceName ''server'', ServiceVersion (Commit b @ ''@'' @ Version b),
                           DeploymentEnvironmentName ''dev''],
          sampler = AlwaysSample\<rparr>"
  by (simp add: newTracer_attrs_def newTracer_def newTracer_000_def)

section \<open>The shutdown sequence\<close>

text \<open>
  The calls of one run of the sequence, on the path where \<open>Shutdown\<close> returns no error and
  on the path where it returns one.
\<close>

lemmas line_defs = emit_def goto_def elapse_def
lemmas seq_defs = shutdown_sequence_def run_def boot_def signal_def step_def line_defs eval_nat_numeral Let_def

lemma effects_drained:
  "sd_err ev = None \<Longrightarrow>
   effects (shutdown_sequence ev t0) =
     [(t0, NotifyStop), (t0, Unalive),
      (t0, Slog LevelInfo ''Received signal. Shutting down.''),
      (t0, Sleep readinessDrainDelay),
      (t0 + readinessDrainDelay, Slog LevelInfo
         ''Readiness check propagated, now waiting for ongoing requests to finish.''),
      (t0 + readinessDrainDelay, WithTimeout shutdownPeriod),
      (t0 + readinessDrainDelay,
         ServerShutdown (TimeoutCtx (t0 + readinessDrainDelay + shutdownPeriod))),
      (t0 + readinessDrainDelay + sd_elapsed ev, StopOngoing),
      (t0 + readinessDrainDelay + sd_elapsed ev, Slog LevelInfo ''Server shut down gracefully''),
      (t0 + readinessDrainDelay + sd_elapsed ev, Slog LevelInfo ''Cleaning up dependencies...''),
      (t0 + readinessDrainDelay + sd_elapsed ev,
         CleanupTracer (TimeoutCtx (t0 + readinessDrainDelay + shutdownPeriod))),
      (t0 + readinessDrainDelay + sd_elapsed ev +
         flush_elapsed ev (TimeoutCtx (t0 + readinessDrainDelay + shutdownPeriod))
           (t0 + readinessDrainDelay + sd_elapsed ev),
       Slog LevelError (''cleanup tracer'' @
         (if flush_err ev (TimeoutCtx (t0 + readinessDrainDelay + shutdownPeriod))
               (t0 + readinessDrainDelay + sd_elapsed ev) \<noteq> None
          then '' failed'' else '' succeeded''))),
      (t0 + readinessDrainDelay + sd_elapsed ev +
         flush_elapsed ev (TimeoutCtx (t0 + readinessDrainDelay + shutdownPeriod))
           (t0 + readinessDrainDelay + sd_elapsed ev),
       CancelTimeout),
      (t0 + readinessDrainDelay + sd_elapsed ev +
         flush_elapsed ev (TimeoutCtx (t0 + readinessDrainDelay + shutdownPeriod))
           (t0 + readinessDrainDelay + sd_elapsed ev),
       NotifyStop)]"
  by (simp add: seq_defs)

lemma effects_timed_out:
  "sd_err ev = Some e \<Longrightarrow>
   effects (shutdown_sequence ev t0) =
     [(t0, NotifyStop), (t0, Unalive),
      (t0, Slog LevelInfo ''Received signal. Shutting down.''),
      (t0, Sleep readinessDrainDelay),
      (t0 + readinessDrainDelay, Slog LevelInfo
         ''Readiness check propagated, now waiting for ongoing requests to finish.''),
      (t0 + readinessDrainDelay, WithTimeout shutdownPeriod),
      (t0 + readinessDrainDelay,
         ServerShutdown (TimeoutCtx (t0 + readinessDrainDelay + shutdownPeriod))),
      (t0 + readinessDrainDelay + sd_elapsed ev, StopOngoing),
      (t0 + readinessDrainDelay + sd_elapsed ev, Slog LevelError
         ''Failed to wait for ongoing requests to finish, waiting for forced cancellation.''),
      (t0 + readinessDrainDelay + sd_elapsed ev, Sleep shutdownHardPeriod),
      (t0 + readinessDrainDelay + sd_elapsed ev + shutdownHardPeriod,
         Slog LevelInfo ''Server shut down gracefully''),
      (t0 + readinessDrainDelay + sd_elapsed ev + shutdownHardPeriod,
         Slog LevelInfo ''Cleaning up dependencies...''),
      (t0 + readinessDrainDelay + sd_elapsed ev + shutdownHardPeriod,
         CleanupTracer (TimeoutCtx (t0 + readinessDrainDelay + shutdownPeriod))),
      (t0 + readinessDrainDelay + sd_elapsed ev + shutdownHardPeriod +
         flush_elapsed ev (TimeoutCtx (t0 + readinessDrainDelay + shutdownPeriod))
           (t0 + readinessDrainDelay + sd_elapsed ev + shutdownHardPeriod),
       Slog LevelError (''cleanup tracer'' @
         (if flush_err ev (TimeoutCtx (t0 + readinessDrainDelay + shutdownPeriod))
               (t0 + readinessDrainDelay + sd_elapsed ev + shutdownHardPeriod) \<noteq> None
          then '' failed'' else '' succeeded''))),
      (t0 + readinessDrainDelay + sd_elapsed ev + shutdownHardPeriod +
         flush_elapsed ev (TimeoutCtx (t0 + readinessDrainDelay + shutdownPeriod))
           (t0 + readinessDrainDelay + sd_elapsed ev + shutdownHardPeriod),
       CancelTimeout),
      (t0 + readinessDrainDelay + sd_elapsed ev + shutdownHardPeriod +
         flush_elapsed ev (TimeoutCtx (t0 + readinessDrainDelay + shutdownPeriod))
           (t0 + readinessDrainDelay + sd_elapsed ev + shutdownHardPeriod),
       NotifyStop)]"
  by (simp add: seq_defs)

lemma status_returned: "status (shutdown_sequence ev t0) = Returned"
  by (cases "sd_err ev") (simp_all add: seq_defs)

lemma clock_returned:
  "clock (shutdown_sequence ev t0) =
     t0 + readinessDrainDelay + sd_elapsed ev +
     (if sd_err ev = None then 0 else shutdownHardPeriod) +
     flush_elapsed ev (TimeoutCtx (t0 + readinessDrainDelay + shutdownPeriod))
       (t0 + readinessDrainDelay + sd_elapsed ev +
        (if sd_err ev = None then 0 else shutdownHardPeriod))"
  by (cases "sd_err ev") (simp_all add: seq_defs)


lemmas order_defs = precedes_def calls_def readinessDrainDelay_def shutdownHardPeriod_def
  shutdownPeriod_def Second_def

text \<open>
  Claim C1. In every run of the sequence, the drain sleep is invoked at the signal and the
  transport's \<open>Shutdown\<close> after it, one drain delay later; on the path with an error the hard
  sleep comes after \<open>Shutdown\<close> has returned and before the cleanup, and on the path without
  one there is no hard sleep; the tracer's cleanup comes after \<open>Shutdown\<close> and is invoked
  exactly once on both paths, and \<open>main\<close> returns.
\<close>

theorem shutdown_order:
  "status (shutdown_sequence ev t0) = Returned \<and>
   precedes (Sleep readinessDrainDelay)
     (ServerShutdown (TimeoutCtx (t0 + readinessDrainDelay + shutdownPeriod)))
     (calls (shutdown_sequence ev t0)) \<and>
   invoked_at (Sleep readinessDrainDelay) (effects (shutdown_sequence ev t0)) = Some t0 \<and>
   invoked_at (ServerShutdown (TimeoutCtx (t0 + readinessDrainDelay + shutdownPeriod)))
     (effects (shutdown_sequence ev t0)) = Some (t0 + readinessDrainDelay) \<and>
   (if sd_err ev = None
    then Sleep shutdownHardPeriod \<notin> set (calls (shutdown_sequence ev t0))
    else precedes (ServerShutdown (TimeoutCtx (t0 + readinessDrainDelay + shutdownPeriod)))
           (Sleep shutdownHardPeriod) (calls (shutdown_sequence ev t0)) \<and>
         invoked_at (Sleep shutdownHardPeriod) (effects (shutdown_sequence ev t0)) =
           Some (t0 + readinessDrainDelay + sd_elapsed ev) \<and>
         precedes (Sleep shutdownHardPeriod)
           (CleanupTracer (TimeoutCtx (t0 + readinessDrainDelay + shutdownPeriod)))
           (calls (shutdown_sequence ev t0))) \<and>
   precedes (ServerShutdown (TimeoutCtx (t0 + readinessDrainDelay + shutdownPeriod)))
     (CleanupTracer (TimeoutCtx (t0 + readinessDrainDelay + shutdownPeriod)))
     (calls (shutdown_sequence ev t0)) \<and>
   filter is_CleanupTracer (calls (shutdown_sequence ev t0)) =
     [CleanupTracer (TimeoutCtx (t0 + readinessDrainDelay + shutdownPeriod))]"
proof (cases "sd_err ev")
  case None
  show ?thesis
    unfolding status_returned
    by (simp add: effects_drained [OF None] None order_defs)
next
  case (Some e)
  show ?thesis
    unfolding status_returned
    by (simp add: effects_timed_out [OF Some] Some order_defs)
qed

text \<open>
  Claim C2. The sleep of the hard period is among the calls exactly when \<open>Shutdown\<close> returned
  an error, and then once. On both paths the cleanup is invoked once, at the time
  \<open>Shutdown\<close> returned plus the hard period if there was an error; after the hard sleep the
  calls are the two log lines, the cleanup, its log line and the deferred calls, and
  \<open>main\<close> returns.
\<close>

theorem hard_sleep_iff_error:
  "(Sleep shutdownHardPeriod \<in> set (calls (shutdown_sequence ev t0))) = (sd_err ev \<noteq> None) \<and>
   count_list (calls (shutdown_sequence ev t0)) (Sleep shutdownHardPeriod) =
     (if sd_err ev = None then 0 else 1) \<and>
   filter is_CleanupTracer (calls (shutdown_sequence ev t0)) =
     [CleanupTracer (TimeoutCtx (t0 + readinessDrainDelay + shutdownPeriod))] \<and>
   invoked_at (CleanupTracer (TimeoutCtx (t0 + readinessDrainDelay + shutdownPeriod)))
     (effects (shutdown_sequence ev t0)) =
     Some (t0 + readinessDrainDelay + sd_elapsed ev +
           (if sd_err ev = None then 0 else shutdownHardPeriod)) \<and>
   (if sd_err ev = None then True
    else dropWhile (\<lambda>x. x \<noteq> Sleep shutdownHardPeriod) (calls (shutdown_sequence ev t0)) =
      [Sleep shutdownHardPeriod,
       Slog LevelInfo ''Server shut down gracefully'',
       Slog LevelInfo ''Cleaning up dependencies...'',
       CleanupTracer (TimeoutCtx (t0 + readinessDrainDelay + shutdownPeriod)),
       Slog LevelError (''cleanup tracer'' @
         (if flush_err ev (TimeoutCtx (t0 + readinessDrainDelay + shutdownPeriod))
               (t0 + readinessDrainDelay + sd_elapsed ev + shutdownHardPeriod) \<noteq> None
          then '' failed'' else '' succeeded'')),
       CancelTimeout, NotifyStop]) \<and>
   status (shutdown_sequence ev t0) = Returned"
proof (cases "sd_err ev")
  case None
  show ?thesis
    unfolding status_returned
    by (simp add: effects_drained [OF None] None order_defs)
next
  case (Some e)
  show ?thesis
    unfolding status_returned
    by (simp add: effects_timed_out [OF Some] Some order_defs)
qed

text \<open>
  Claim C7 says the serving context is cancelled only after the hard wait and the cleanup.
  With a transport that times out, \<open>stopOngoingGracefully\<close> is called 20 seconds after the
  signal, before the hard sleep starts, and the cleanup is invoked at 23 seconds.
\<close>

theorem serving_ctx_counterexample:
  "precedes StopOngoing (Sleep shutdownHardPeriod) (calls (shutdown_sequence env_stuck 0)) \<and>
   precedes StopOngoing (CleanupTracer (TimeoutCtx (readinessDrainDelay + shutdownPeriod)))
     (calls (shutdown_sequence env_stuck 0)) \<and>
   \<not> precedes (Sleep shutdownHardPeriod) StopOngoing (calls (shutdown_sequence env_stuck 0)) \<and>
   \<not> precedes (CleanupTracer (TimeoutCtx (readinessDrainDelay + shutdownPeriod))) StopOngoing
     (calls (shutdown_sequence env_stuck 0)) \<and>
   invoked_at StopOngoing (effects (shutdown_sequence env_stuck 0)) = Some (20 * Second) \<and>
   invoked_at (Sleep shutdownHardPeriod) (effects (shutdown_sequence env_stuck 0)) =
     Some (20 * Second) \<and>
   invoked_at (CleanupTracer (TimeoutCtx (readinessDrainDelay + shutdownPeriod)))
     (effects (shutdown_sequence env_stuck 0)) = Some (23 * Second)"
proof -
  have e: "sd_err env_stuck = Some DeadlineExceeded"
    by (simp add: env_stuck_def)
  show ?thesis
    by (simp add: effects_timed_out [OF e] order_defs, simp add: env_stuck_def order_defs)
qed

text \<open>
  Claim C7, amended. The serving context is not cancelled by the delivery of the signal. It
  is cancelled once, when the transport's \<open>Shutdown\<close> has returned (with or without an
  error): after the drain sleep and \<open>Shutdown\<close>, and before the hard sleep, if there is
  one, and before the tracer's cleanup.
\<close>

theorem serving_ctx_cancelled_after_shutdown:
  "\<not> ongoing_done (signal (boot t0)) \<and>
   count_list (calls (shutdown_sequence ev t0)) StopOngoing = 1 \<and>
   precedes (Sleep readinessDrainDelay) StopOngoing (calls (shutdown_sequence ev t0)) \<and>
   precedes (ServerShutdown (TimeoutCtx (t0 + readinessDrainDelay + shutdownPeriod))) StopOngoing
     (calls (shutdown_sequence ev t0)) \<and>
   invoked_at StopOngoing (effects (shutdown_sequence ev t0)) =
     Some (t0 + readinessDrainDelay + sd_elapsed ev) \<and>
   precedes StopOngoing (CleanupTracer (TimeoutCtx (t0 + readinessDrainDelay + shutdownPeriod)))
     (calls (shutdown_sequence ev t0)) \<and>
   (if sd_err ev = None then Sleep shutdownHardPeriod \<notin> set (calls (shutdown_sequence ev t0))
    else precedes StopOngoing (Sleep shutdownHardPeriod) (calls (shutdown_sequence ev t0)))"
proof -
  have s: "\<not> ongoing_done (signal (boot t0))"
    by (simp add: signal_def boot_def)
  show ?thesis
  proof (cases "sd_err ev")
    case None
    show ?thesis
      using s by (simp add: effects_drained [OF None] None order_defs)
  next
    case (Some e)
    show ?thesis
      using s by (simp add: effects_timed_out [OF Some] Some order_defs)
  qed
qed

text \<open>
  Claim C8. If \<open>Shutdown\<close> returns within the graceful period, the cleanup is invoked no
  earlier than one drain delay after the signal and no later than the drain delay, the
  graceful period and the hard period together. If moreover the tracer's \<open>Shutdown\<close> returns
  within what is left of its context's deadline, \<open>main\<close> has returned by that bound too.
  (The clock counts the blocking calls only; what the other statements take is the
  scheduling overhead.)
\<close>

theorem cleanup_time_bounds:
  assumes "sd_elapsed ev \<le> shutdownPeriod"
  shows "invoked_at (CleanupTracer (TimeoutCtx (t0 + readinessDrainDelay + shutdownPeriod)))
           (effects (shutdown_sequence ev t0)) =
           Some (t0 + readinessDrainDelay + sd_elapsed ev +
                 (if sd_err ev = None then 0 else shutdownHardPeriod)) \<and>
         t0 + readinessDrainDelay \<le>
           t0 + readinessDrainDelay + sd_elapsed ev +
           (if sd_err ev = None then 0 else shutdownHardPeriod) \<and>
         t0 + readinessDrainDelay + sd_elapsed ev +
           (if sd_err ev = None then 0 else shutdownHardPeriod) \<le>
           t0 + readinessDrainDelay + shutdownPeriod + shutdownHardPeriod \<and>
         ((\<forall>c now. flush_elapsed ev c now \<le> remaining c now) \<longrightarrow>
          clock (shutdown_sequence ev t0) \<le>
            t0 + readinessDrainDelay + shutdownPeriod + shutdownHardPeriod)"
proof -
  have at: "invoked_at (CleanupTracer (TimeoutCtx (t0 + readinessDrainDelay + shutdownPeriod)))
           (effects (shutdown_sequence ev t0)) =
           Some (t0 + readinessDrainDelay + sd_elapsed ev +
                 (if sd_err ev = None then 0 else shutdownHardPeriod))"
  proof (cases "sd_err ev")
    case None
    show ?thesis by (simp add: effects_drained [OF None] None)
  next
    case (Some e)
    show ?thesis by (simp add: effects_timed_out [OF Some] Some)
  qed
  have total: "clock (shutdown_sequence ev t0) \<le>
      t0 + readinessDrainDelay + shutdownPeriod + shutdownHardPeriod"
    if h: "\<forall>c now. flush_elapsed ev c now \<le> remaining c now"
  proof (cases "sd_err ev")
    case None
    have "flush_elapsed ev (TimeoutCtx (t0 + readinessDrainDelay + shutdownPeriod))
            (t0 + readinessDrainDelay + sd_elapsed ev) \<le>
          remaining (TimeoutCtx (t0 + readinessDrainDelay + shutdownPeriod))
            (t0 + readinessDrainDelay + sd_elapsed ev)"
      using h by blast
    then show ?thesis
      using assms by (simp add: clock_returned None)
  next
    case (Some e)
    have "flush_elapsed ev (TimeoutCtx (t0 + readinessDrainDelay + shutdownPeriod))
            (t0 + readinessDrainDelay + sd_elapsed ev + shutdownHardPeriod) \<le>
          remaining (TimeoutCtx (t0 + readinessDrainDelay + shutdownPeriod))
            (t0 + readinessDrainDelay + sd_elapsed ev + shutdownHardPeriod)"
      using h by blast
    then show ?thesis
      using assms by (simp add: clock_returned Some)
  qed
  show ?thesis
    using at total assms by simp
qed

text \<open>
  Claim C8 at a concrete input. The bound is met by the transport that times out: the
  cleanup is invoked 23 seconds after the signal.
\<close>

theorem cleanup_time_bounds_witness:
  "sd_elapsed env_stuck \<le> shutdownPeriod \<and>
   (\<forall>c now. flush_elapsed env_stuck c now \<le> remaining c now) \<and>
   invoked_at (CleanupTracer (TimeoutCtx (0 + readinessDrainDelay + shutdownPeriod)))
     (effects (shutdown_sequence env_stuck 0)) = Some (23 * Second) \<and>
   clock (shutdown_sequence env_stuck 0) \<le>
     0 + readinessDrainDelay + shutdownPeriod + shutdownHardPeriod"
proof -
  have h: "sd_elapsed env_stuck \<le> shutdownPeriod"
    by (simp add: env_stuck_def)
  have f: "\<forall>c now. flush_elapsed env_stuck c now \<le> remaining c now"
    by (simp add: env_stuck_def)
  show ?thesis
    using h f cleanup_time_bounds [OF h, of 0]
    by (simp add: env_stuck_def order_defs)
qed

text \<open>
  Claim C10. When \<open>Shutdown\<close> returns the context's deadline error, which it does once the
  graceful period has passed, the cleanup receives the very context \<open>Shutdown\<close> was given,
  at a time when its deadline has passed and before the deferred \<open>cancel()\<close>: the context
  is expired and nothing is left of its budget. Whatever the flush returns, the wrapper
  logs the outcome, the deferred calls follow, and \<open>main\<close> returns.
\<close>

theorem cleanup_ctx_expired_on_timeout:
  assumes "sd_err ev = Some DeadlineExceeded" and "shutdownPeriod \<le> sd_elapsed ev"
  shows "ServerShutdown (TimeoutCtx (t0 + readinessDrainDelay + shutdownPeriod)) \<in>
           set (calls (shutdown_sequence ev t0)) \<and>
         filter is_CleanupTracer (calls (shutdown_sequence ev t0)) =
           [CleanupTracer (TimeoutCtx (t0 + readinessDrainDelay + shutdownPeriod))] \<and>
         invoked_at (CleanupTracer (TimeoutCtx (t0 + readinessDrainDelay + shutdownPeriod)))
           (effects (shutdown_sequence ev t0)) =
           Some (t0 + readinessDrainDelay + sd_elapsed ev + shutdownHardPeriod) \<and>
         expired (TimeoutCtx (t0 + readinessDrainDelay + shutdownPeriod))
           (t0 + readinessDrainDelay + sd_elapsed ev + shutdownHardPeriod) \<and>
         remaining (TimeoutCtx (t0 + readinessDrainDelay + shutdownPeriod))
           (t0 + readinessDrainDelay + sd_elapsed ev + shutdownHardPeriod) = 0 \<and>
         precedes (CleanupTracer (TimeoutCtx (t0 + readinessDrainDelay + shutdownPeriod)))
           CancelTimeout (calls (shutdown_sequence ev t0)) \<and>
         dropWhile (\<lambda>x. \<not> is_CleanupTracer x) (calls (shutdown_sequence ev t0)) =
           [CleanupTracer (TimeoutCtx (t0 + readinessDrainDelay + shutdownPeriod)),
            Slog LevelError (''cleanup tracer'' @
              (if flush_err ev (TimeoutCtx (t0 + readinessDrainDelay + shutdownPeriod))
                    (t0 + readinessDrainDelay + sd_elapsed ev + shutdownHardPeriod) \<noteq> None
               then '' failed'' else '' succeeded'')),
            CancelTimeout, NotifyStop] \<and>
         status (shutdown_sequence ev t0) = Returned"
  unfolding status_returned
  using assms(2) by (simp add: effects_timed_out [OF assms(1)] precedes_def calls_def)

text \<open>
  Claim C10 at a concrete input. With the transport that times out, the cleanup is invoked
  at 23 seconds with a context whose deadline was at 20 seconds, and the failed flush is
  logged.
\<close>

theorem cleanup_ctx_expired_on_timeout_witness:
  "sd_err env_stuck = Some DeadlineExceeded \<and> shutdownPeriod \<le> sd_elapsed env_stuck \<and>
   filter is_CleanupTracer (calls (shutdown_sequence env_stuck 0)) =
     [CleanupTracer (TimeoutCtx (20 * Second))] \<and>
   invoked_at (CleanupTracer (TimeoutCtx (20 * Second)))
     (effects (shutdown_sequence env_stuck 0)) = Some (23 * Second) \<and>
   expired (TimeoutCtx (20 * Second)) (23 * Second) \<and>
   Slog LevelError ''cleanup tracer failed'' \<in> set (calls (shutdown_sequence env_stuck 0)) \<and>
   status (shutdown_sequence env_stuck 0) = Returned"
proof -
  have e: "sd_err env_stuck = Some DeadlineExceeded"
    by (simp add: env_stuck_def)
  have h: "shutdownPeriod \<le> sd_elapsed env_stuck"
    by (simp add: env_stuck_def)
  have m: "Slog LevelError ''cleanup tracer failed'' \<in> set (calls (shutdown_sequence env_stuck 0))"
    by (simp add: effects_timed_out [OF e] calls_def, simp add: env_stuck_def order_defs)
  show ?thesis
    using e h m cleanup_ctx_expired_on_timeout [OF e h, of 0]
    by (simp add: env_stuck_def order_defs)
qed

section \<open>Signals during the sequence\<close>

lemma run_append: "run ev (xs @ ys) s = run ev ys (run ev xs s)"
  by (simp add: run_def)

lemma step_effects_prefix: "prefix (effects s) (effects (step ev s))"
  by (cases "pc s") (simp_all add: step_def line_defs Let_def split: option.splits)

lemma step_root_done: "root_done s \<Longrightarrow> root_done (step ev s)"
  by (cases "pc s") (simp_all add: step_def line_defs Let_def split: option.splits)

lemma step_stopped: "status s \<noteq> Running \<Longrightarrow> step ev s = s"
  by (simp add: step_def)

lemma signal_stopped: "status s \<noteq> Running \<Longrightarrow> signal s = s"
  by (simp add: signal_def)

lemma steps_Suc: "run ev (replicate (Suc k) Step) s = step ev (run ev (replicate k Step) s)"
proof -
  have "replicate (Suc k) Step = replicate k Step @ [Step]"
    by (simp add: replicate_append_same)
  then show ?thesis
    by (simp only: run_append) (simp add: run_def)
qed

lemma steps_stopped: "status s \<noteq> Running \<Longrightarrow> run ev (replicate k Step) s = s"
proof (induction k)
  case 0
  show ?case by (simp add: run_def)
next
  case (Suc k)
  then show ?case by (simp only: steps_Suc) (simp add: step_stopped)
qed

lemma steps_effects_prefix: "prefix (effects s) (effects (run ev (replicate k Step) s))"
proof (induction k)
  case 0
  show ?case by (simp add: run_def)
next
  case (Suc k)
  have "prefix (effects (run ev (replicate k Step) s))
          (effects (run ev (replicate (Suc k) Step) s))"
    by (simp only: steps_Suc step_effects_prefix)
  with Suc.IH show ?case
    by (rule prefix_order.trans)
qed

lemma steps_root_done: "root_done s \<Longrightarrow> root_done (run ev (replicate k Step) s)"
proof (induction k)
  case 0
  then show ?case by (simp add: run_def)
next
  case (Suc k)
  then show ?case by (simp only: steps_Suc) (simp add: step_root_done)
qed

lemma steps_add:
  "run ev (replicate (j + k) Step) s = run ev (replicate k Step) (run ev (replicate j Step) s)"
  by (simp add: replicate_add run_append)

text \<open>Every state a schedule reaches: blocked at line 166, or some number of steps after
  the first signal, alive or killed.\<close>

lemma step_boot: "step ev (boot t0) = boot t0"
  by (simp add: step_def boot_def)

lemma root_done_update: "root_done s \<Longrightarrow> s\<lparr>root_done := True\<rparr> = s"
  by (cases s) simp

lemma reach:
  "run ev ins (boot t0) = boot t0 \<or>
   (\<exists>k. run ev ins (boot t0) = run ev (replicate k Step) (signal (boot t0))) \<or>
   (\<exists>k. run ev ins (boot t0) = (run ev (replicate k Step) (signal (boot t0)))\<lparr>status := Killed\<rparr>)"
proof (induction ins rule: rev_induct)
  case Nil
  show ?case by (simp add: run_def)
next
  case (snoc x ins)
  let ?s = "run ev ins (boot t0)"
  have r: "run ev (ins @ [x]) (boot t0) = react ev x ?s"
    by (simp add: run_def)
  from snoc.IH consider
    (a) "?s = boot t0"
    | (b) k where "?s = run ev (replicate k Step) (signal (boot t0))"
    | (c) k where "?s = (run ev (replicate k Step) (signal (boot t0)))\<lparr>status := Killed\<rparr>"
    by blast
  then show ?case
  proof cases
    case a
    show ?thesis
    proof (cases x)
      case Signal
      have "react ev x ?s = signal (boot t0)"
        by (simp add: a Signal)
      moreover have "run ev (replicate 0 Step) (signal (boot t0)) = signal (boot t0)"
        by (simp add: run_def)
      ultimately have "react ev x ?s = run ev (replicate 0 Step) (signal (boot t0))"
        by simp
      then show ?thesis unfolding r by blast
    next
      case Step
      have "react ev x ?s = boot t0"
        by (simp add: a Step step_boot)
      then show ?thesis unfolding r by blast
    qed
  next
    case b
    have rd: "root_done ?s"
      unfolding b by (rule steps_root_done) (simp add: signal_def boot_def)
    show ?thesis
    proof (cases x)
      case Signal
      have "signal ?s = ?s \<or> signal ?s = ?s\<lparr>status := Killed\<rparr>"
        using rd by (auto simp add: signal_def root_done_update)
      then show ?thesis
        unfolding r using b by (auto simp add: Signal)
    next
      case Step
      have "react ev x ?s = run ev (replicate (Suc k) Step) (signal (boot t0))"
        by (simp only: steps_Suc) (simp add: Step b)
      then show ?thesis unfolding r by blast
    qed
  next
    case c
    have "status ?s \<noteq> Running"
      by (simp add: c)
    then have "react ev x ?s = ?s"
      by (cases x) (simp_all add: step_stopped signal_stopped)
    then show ?thesis
      unfolding r using c by auto
  qed
qed

lemma sequence_steps:
  "shutdown_sequence ev t0 = run ev (replicate 20 Step) (signal (boot t0))"
  by (simp add: shutdown_sequence_def run_def)

lemma steps_prefix_sequence:
  "prefix (effects (run ev (replicate k Step) (signal (boot t0))))
     (effects (shutdown_sequence ev t0))"
proof (cases "k \<le> 20")
  case True
  then have "20 = k + (20 - k)" by simp
  then have "shutdown_sequence ev t0 =
      run ev (replicate (20 - k) Step) (run ev (replicate k Step) (signal (boot t0)))"
    unfolding sequence_steps by (metis steps_add)
  then show ?thesis
    by (simp add: steps_effects_prefix)
next
  case False
  then have "k = 20 + (k - 20)" by simp
  then have "run ev (replicate k Step) (signal (boot t0)) =
      run ev (replicate (k - 20) Step) (shutdown_sequence ev t0)"
    unfolding sequence_steps by (metis steps_add)
  then show ?thesis
    by (simp add: steps_stopped status_returned)
qed

lemma filter_prefix_length:
  "prefix xs ys \<Longrightarrow> length (filter P (map f xs)) \<le> length (filter P (map f ys))"
  by (auto simp add: prefix_def)

lemma step_notify: "\<not> notify s \<Longrightarrow> \<not> notify (step ev s)"
  by (cases "pc s") (simp_all add: step_def line_defs Let_def split: option.splits)

lemma step_not_killed: "status s \<noteq> Killed \<Longrightarrow> status (step ev s) \<noteq> Killed"
  by (cases "pc s") (simp_all add: step_def line_defs Let_def split: option.splits)

lemma steps_notify: "\<not> notify s \<Longrightarrow> \<not> notify (run ev (replicate k Step) s)"
proof (induction k)
  case 0
  then show ?case by (simp add: run_def)
next
  case (Suc k)
  then show ?case by (simp only: steps_Suc) (simp add: step_notify)
qed

lemma steps_not_killed:
  "status s \<noteq> Killed \<Longrightarrow> status (run ev (replicate k Step) s) \<noteq> Killed"
proof (induction k)
  case 0
  then show ?case by (simp add: run_def)
next
  case (Suc k)
  then show ?case by (simp only: steps_Suc) (simp add: step_not_killed)
qed

lemma signal_after_stop:
  "status (signal (run ev (Signal # Step # Step # replicate k Step) (boot t0))) =
     (if status (run ev (Signal # Step # Step # replicate k Step) (boot t0)) = Running
      then Killed else Returned)"
proof -
  let ?s2 = "run ev [Signal, Step, Step] (boot t0)"
  have r: "run ev (Signal # Step # Step # replicate k Step) (boot t0) =
      run ev (replicate k Step) ?s2"
    by (simp add: run_def)
  have n: "\<not> notify ?s2" and k: "status ?s2 \<noteq> Killed"
    by (simp_all add: run_def signal_def step_def boot_def line_defs)
  have "\<not> notify (run ev (replicate k Step) ?s2)"
    using n by (rule steps_notify)
  moreover have "status (run ev (replicate k Step) ?s2) \<noteq> Killed"
    using k by (rule steps_not_killed)
  ultimately show ?thesis
    unfolding r by (cases "status (run ev (replicate k Step) ?s2)") (simp_all add: signal_def)
qed

lemma signal_before_stop:
  "run ev (Signal # Signal # ins) (boot t0) = run ev (Signal # ins) (boot t0) \<and>
   run ev (Signal # Step # Signal # ins) (boot t0) = run ev (Signal # Step # ins) (boot t0)"
  by (simp add: run_def signal_def step_def boot_def line_defs)

text \<open>
  Claim C6 says a second signal does not cut the sequence short. A signal that arrives
  after \<open>stop()\<close> has run (here: after two steps of \<open>main\<close>) finds no registration and ends
  the process: only \<open>stop()\<close> has been called, the cleanup is never invoked, whereas the run
  with one signal returns and invokes it once.
\<close>

theorem second_signal_counterexample:
  "status (run env_fast ([Signal, Step, Step, Signal] @ replicate 20 Step) (boot 0)) = Killed \<and>
   calls (run env_fast ([Signal, Step, Step, Signal] @ replicate 20 Step) (boot 0)) =
     [NotifyStop] \<and>
   filter is_CleanupTracer
     (calls (run env_fast ([Signal, Step, Step, Signal] @ replicate 20 Step) (boot 0))) = [] \<and>
   status (shutdown_sequence env_fast 0) = Returned \<and>
   filter is_CleanupTracer (calls (shutdown_sequence env_fast 0)) =
     [CleanupTracer (TimeoutCtx (20 * Second))]"
proof -
  have e: "sd_err env_fast = None"
    by (simp add: env_fast_def)
  have k: "status (run env_fast [Signal, Step, Step, Signal] (boot 0)) \<noteq> Running"
    by (simp add: run_def signal_def step_def boot_def line_defs)
  have r: "run env_fast ([Signal, Step, Step, Signal] @ replicate 20 Step) (boot 0) =
      run env_fast [Signal, Step, Step, Signal] (boot 0)"
    unfolding run_append by (rule steps_stopped [OF k])
  show ?thesis
    unfolding r status_returned
    by (simp add: effects_drained [OF e] calls_def,
        simp add: run_def signal_def step_def boot_def line_defs order_defs)
qed

text \<open>
  Claim C6, amended. Whatever signals arrive and whenever, the calls made are an initial
  part of the calls of the run with a single signal: the sequence is never entered again and
  the cleanup is invoked at most once. A second signal that arrives before \<open>stop()\<close> has run
  (right after the first, or after the first statement of the sequence) changes nothing;
  one that arrives once \<open>stop()\<close> has run (two steps or more after the first) ends the
  process if \<open>main\<close> has not returned yet, and the rest of the sequence does not run.
\<close>

theorem signals_never_restart:
  "prefix (effects (run ev ins (boot t0))) (effects (shutdown_sequence ev t0)) \<and>
   length (filter is_CleanupTracer (calls (run ev ins (boot t0)))) \<le> 1 \<and>
   run ev (Signal # Signal # ins) (boot t0) = run ev (Signal # ins) (boot t0) \<and>
   run ev (Signal # Step # Signal # ins) (boot t0) = run ev (Signal # Step # ins) (boot t0) \<and>
   status (signal (run ev (Signal # Step # Step # replicate k Step) (boot t0))) =
     (if status (run ev (Signal # Step # Step # replicate k Step) (boot t0)) = Running
      then Killed else Returned)"
proof -
  have p: "prefix (effects (run ev ins (boot t0))) (effects (shutdown_sequence ev t0))"
    using reach [of ev ins t0]
  proof (elim disjE exE)
    assume "run ev ins (boot t0) = boot t0"
    then show ?thesis by (simp add: boot_def)
  next
    fix k
    assume "run ev ins (boot t0) = run ev (replicate k Step) (signal (boot t0))"
    then show ?thesis by (simp add: steps_prefix_sequence)
  next
    fix k
    assume "run ev ins (boot t0) =
      (run ev (replicate k Step) (signal (boot t0)))\<lparr>status := Killed\<rparr>"
    then show ?thesis by (simp add: steps_prefix_sequence)
  qed
  have one: "length (filter is_CleanupTracer (calls (shutdown_sequence ev t0))) = 1"
    by (cases "sd_err ev") (simp_all add: effects_drained effects_timed_out calls_def)
  have c: "length (filter is_CleanupTracer (calls (run ev ins (boot t0)))) \<le> 1"
    using filter_prefix_length [OF p, of is_CleanupTracer snd] one
    by (simp add: calls_def)
  show ?thesis
    using p c signal_before_stop [of ev ins t0] signal_after_stop [of ev k t0] by simp
qed

end
